theory Spec2Isabelle
  imports Main
begin

section \<open>Strings as Python sees them\<close>

text \<open>
  A Python \<open>str\<close> is modelled as a \<open>string\<close>, a list of \<open>char\<close>. A \<open>char\<close> stands for the
  code point of the same number (0 to 255); the three classifications below are the ones
  Python's \<open>str.isspace\<close>, \<open>str.isalnum\<close> and \<open>str.lower\<close> compute on that range.
  Recursion depth is unbounded in the model.
\<close>

definition isspace :: "char \<Rightarrow> bool" where
  "isspace c =
     (let n = (of_char c :: nat)
      in (9 \<le> n \<and> n \<le> 13) \<or> (28 \<le> n \<and> n \<le> 32) \<or> n = 133 \<or> n = 160)"

definition isalnum :: "char \<Rightarrow> bool" where
  "isalnum c =
     (let n = (of_char c :: nat)
      in (48 \<le> n \<and> n \<le> 57) \<or> (65 \<le> n \<and> n \<le> 90) \<or> (97 \<le> n \<and> n \<le> 122)
         \<or> n = 170 \<or> n = 178 \<or> n = 179 \<or> n = 181 \<or> n = 185 \<or> n = 186
         \<or> (188 \<le> n \<and> n \<le> 190) \<or> (192 \<le> n \<and> n \<le> 214)
         \<or> (216 \<le> n \<and> n \<le> 246) \<or> (248 \<le> n \<and> n \<le> 255))"

definition lower_char :: "char \<Rightarrow> char" where
  "lower_char c =
     (let n = (of_char c :: nat)
      in if (65 \<le> n \<and> n \<le> 90) \<or> (192 \<le> n \<and> n \<le> 214) \<or> (216 \<le> n \<and> n \<le> 222)
         then char_of (n + 32) else c)"

text \<open>\<open>s.lower()\<close>\<close>

definition lower :: "string \<Rightarrow> string" where
  "lower s = map lower_char s"

text \<open>\<open>s.lstrip()\<close> and \<open>s.strip()\<close>\<close>

definition lstrip :: "string \<Rightarrow> string" where
  "lstrip s = dropWhile isspace s"

definition strip :: "string \<Rightarrow> string" where
  "strip s = rev (dropWhile isspace (rev (dropWhile isspace s)))"

text \<open>\<open>s[a:b]\<close> for non-negative \<open>a\<close>, \<open>b\<close>: empty when \<open>b \<le> a\<close>, cut at the end of \<open>s\<close>.\<close>

definition slice :: "string \<Rightarrow> nat \<Rightarrow> nat \<Rightarrow> string" where
  "slice s a b = take (b - a) (drop a s)"

text \<open>\<open>s.startswith(p)\<close> and \<open>s.endswith(p)\<close>\<close>

definition startswith :: "string \<Rightarrow> string \<Rightarrow> bool" where
  "startswith s p = (take (length p) s = p)"

definition endswith :: "string \<Rightarrow> string \<Rightarrow> bool" where
  "endswith s p = (length p \<le> length s \<and> drop (length s - length p) s = p)"

text \<open>\<open>s.find(sub)\<close> and \<open>s.rfind(sub)\<close>; Python's \<open>-1\<close> is \<open>None\<close>.\<close>

fun find_sub :: "string \<Rightarrow> string \<Rightarrow> nat option" where
  "find_sub [] sub = (if sub = [] then Some 0 else None)"
| "find_sub (c # cs) sub =
     (if startswith (c # cs) sub then Some 0 else map_option Suc (find_sub cs sub))"

fun rfind_sub :: "string \<Rightarrow> string \<Rightarrow> nat option" where
  "rfind_sub [] sub = (if sub = [] then Some 0 else None)"
| "rfind_sub (c # cs) sub =
     (case rfind_sub cs sub of
        Some k \<Rightarrow> Some (Suc k)
      | None \<Rightarrow> if startswith (c # cs) sub then Some 0 else None)"

text \<open>\<open>s.find(sub, start)\<close>\<close>

definition find_from :: "string \<Rightarrow> string \<Rightarrow> nat \<Rightarrow> nat option" where
  "find_from s sub start =
     (if length s < start then None
      else map_option (\<lambda>k. start + k) (find_sub (drop start s) sub))"

text \<open>\<open>sep.join(xs)\<close>\<close>

fun join :: "string \<Rightarrow> string list \<Rightarrow> string" where
  "join sep [] = []"
| "join sep [x] = x"
| "join sep (x # y # ys) = x @ sep @ join sep (y # ys)"

text \<open>
  \<open>s.replace(old, new)\<close>: the occurrences of \<open>old\<close> are found from left to right and do
  not overlap; an empty \<open>old\<close> matches before every character and at the end.
\<close>

function replace :: "string \<Rightarrow> string \<Rightarrow> string \<Rightarrow> string" where
  "replace s old new =
     (if old = [] then new @ concat (map (\<lambda>c. c # new) s)
      else if s = [] then []
      else if startswith s old then new @ replace (drop (length old) s) old new
      else hd s # replace (tl s) old new)"
  by pat_completeness auto
termination
  by (relation "measure (\<lambda>(s, old, new). length s)") auto

declare replace.simps [simp del]

text \<open>
  \<open>s.split(None, 1)\<close>: at most one split at the first run of whitespace; leading whitespace
  is dropped, and the remainder keeps its trailing whitespace.
\<close>

definition split1 :: "string \<Rightarrow> string list" where
  "split1 s =
     (let s1 = dropWhile isspace s
      in if s1 = [] then []
         else let w = takeWhile (\<lambda>c. \<not> isspace c) s1;
                  r = dropWhile isspace (dropWhile (\<lambda>c. \<not> isspace c) s1)
              in if r = [] then [w] else [w, r])"

text \<open>The loop \<open>while i < n and P(s[i]): i += 1\<close>, as the index it ends at.\<close>

definition skip_while :: "(char \<Rightarrow> bool) \<Rightarrow> string \<Rightarrow> nat \<Rightarrow> nat" where
  "skip_while P s i = i + length (takeWhile P (drop i s))"

section \<open>The tree\<close>

text \<open>
  \<open>SSMLText\<close> and \<open>SSMLTag\<close> with their \<open>__eq__\<close>: equality is structural. The attribute
  dictionary is an association list in insertion order with unique keys; assigning to a
  key that is present keeps its place.
\<close>

datatype SSMLNode =
    SSMLText string
  | SSMLTag string "(string \<times> string) list" "SSMLNode list"

fun dict_set :: "(string \<times> string) list \<Rightarrow> string \<Rightarrow> string \<Rightarrow> (string \<times> string) list" where
  "dict_set [] k v = [(k, v)]"
| "dict_set ((k', v') # kvs) k v =
     (if k' = k then (k, v) # kvs else (k', v') # dict_set kvs k v)"

text \<open>The exceptions, one constructor for each message; the wrappers carry the wrapped one.\<close>

datatype error =
    InvalidAttribute nat
  | MissingEquals string
  | MissingAttributeValue string
  | UnclosedQuote string
  | UnclosedTag
  | MismatchedTags string string
  | EmptyTag
  | InvalidAttributesInTag string error
  | MissingClosingTag string
  | MissingRoot
  | UnclosedSpeak
  | MissingClosingSpeak
  | ErrorParsingSSML error

section \<open>Escaping\<close>

definition unescapeXMLChars :: "string \<Rightarrow> string" where
  "unescapeXMLChars text =
     replace (replace (replace text ''&lt;'' ''<'') ''&gt;'' ''>'') ''&amp;'' ''&''"

definition escapeXMLChars :: "string \<Rightarrow> string" where
  "escapeXMLChars text =
     replace (replace (replace text ''<'' ''&lt;'') ''>'' ''&gt;'') ''&'' ''&amp;''"

section \<open>The serializer\<close>

text \<open>The attribute string of an element (lines 246 to 248).\<close>

definition render_attributes :: "(string \<times> string) list \<Rightarrow> string" where
  "render_attributes attributes =
     (if attributes \<noteq> []
      then '' '' @ join '' ''
             (map (\<lambda>(k, v). k @ ''='' @ [CHR 0x22] @ escapeXMLChars v @ [CHR 0x22]) attributes)
      else [])"

fun ssmlNodeToText :: "SSMLNode \<Rightarrow> string" where
  "ssmlNodeToText (SSMLText text) = escapeXMLChars text"
| "ssmlNodeToText (SSMLTag name attributes children) =
     (let attrs = render_attributes attributes
      in if children = [] then ''<'' @ name @ attrs @ '' />''
         else let children_text = concat (map ssmlNodeToText children)
              in if strip children_text = [] then ''<'' @ name @ attrs @ '' />''
                 else ''<'' @ name @ attrs @ ''>'' @ children_text @ ''</'' @ name @ ''>'')"

section \<open>The attribute tokenizer\<close>

definition name_char :: "char \<Rightarrow> bool" where
  "name_char c = (isalnum c \<or> c \<in> set ''-_.:'')"

text \<open>
  The scan of a quoted value (the loop at lines 98 to 106), from index \<open>i\<close>: it stops at the
  quote or at the end; after an \<open>&\<close> it runs to the next \<open>;\<close> and steps over it, or stops
  at the end when there is none.
\<close>

function scan_quoted :: "string \<Rightarrow> char \<Rightarrow> nat \<Rightarrow> nat" where
  "scan_quoted s quote i =
     (if i < length s \<and> s ! i \<noteq> quote then
        (if s ! i = CHR ''&'' then
           (let j = skip_while (\<lambda>c. c \<noteq> CHR '';'') s (i + 1)
            in if length s \<le> j then j else scan_quoted s quote (j + 1))
         else scan_quoted s quote (i + 1))
      else i)"
  by pat_completeness auto
termination
  by (relation "measure (\<lambda>(s, quote, i). length s - i)") (auto simp: skip_while_def)

declare scan_quoted.simps [simp del]

text \<open>The outer loop of \<open>parse_attributes\<close>, with the dictionary and the index as its state.\<close>

function parse_attributes_loop ::
  "string \<Rightarrow> (string \<times> string) list \<Rightarrow> nat \<Rightarrow> error + (string \<times> string) list" where
  "parse_attributes_loop s attrs i0 =
     (let n = length s
      in if i0 < n then
           (let i = skip_while isspace s i0
            in if n \<le> i then Inr attrs
               else
                 (let name_start = i;
                      i = skip_while name_char s i
                  in if i = name_start then Inl (InvalidAttribute i)
                     else
                       (let name = slice s name_start i;
                            i = skip_while isspace s i
                        in if n \<le> i \<or> s ! i \<noteq> CHR ''='' then Inl (MissingEquals name)
                           else
                             (let i = skip_while isspace s (i + 1)
                              in if n \<le> i then Inl (MissingAttributeValue name)
                                 else
                                   (let quote = s ! i
                                    in if quote \<noteq> CHR 0x22 \<and> quote \<noteq> CHR 0x27 then
                                         (let value_start = i;
                                              i = skip_while (\<lambda>c. \<not> isspace c \<and> c \<noteq> CHR ''>'') s i;
                                              v = slice s value_start i
                                          in parse_attributes_loop s (dict_set attrs name v) i)
                                       else
                                         (let value_start = i + 1;
                                              i = scan_quoted s quote (i + 1)
                                          in if n \<le> i \<or> s ! i \<noteq> quote then Inl (UnclosedQuote name)
                                             else parse_attributes_loop s
                                                    (dict_set attrs name (slice s value_start i)) (i + 1)))))))
         else Inr attrs)"
  by pat_completeness auto
termination
proof (relation "measure (\<lambda>(s, attrs, i). length s - i)", goal_cases)
  case 1
  show ?case by simp
next
  case (2 s attrs i0 n i1 ns i2 name i3 i4 q vs i5 v)
  have ge: "i \<le> skip_while P s i" for P i
    by (simp add: skip_while_def)
  have "i0 \<le> i1" "i1 \<le> i2" "i2 \<le> i3" "i3 + 1 \<le> i4" "i4 \<le> i5"
    using 2 by (simp_all add: ge)
  moreover have "i1 \<noteq> i2" using 2 by simp
  ultimately show ?case using 2(1,2) by simp
next
  case (3 s attrs i0 n i1 ns i2 name i3 i4 q vs i5)
  have ge: "i \<le> skip_while P s i" for P s i
    by (simp add: skip_while_def)
  have ge_quoted: "i \<le> scan_quoted t c i" for t c i
  proof (induction t c i rule: scan_quoted.induct)
    case (1 t c i)
    let ?j = "skip_while (\<lambda>c. c \<noteq> CHR '';'') t (i + 1)"
    have j: "i + 1 \<le> ?j" by (rule ge)
    show ?case
    proof (cases "i < length t \<and> t ! i \<noteq> c")
      case False
      then show ?thesis by (auto simp add: scan_quoted.simps[of t c i])
    next
      case True
      show ?thesis
      proof (cases "t ! i = CHR ''&''")
        case False
        with True 1(2) have "i + 1 \<le> scan_quoted t c (i + 1)" by simp
        with True False show ?thesis by (simp add: scan_quoted.simps[of t c i])
      next
        case amp: True
        show ?thesis
        proof (cases "length t \<le> ?j")
          case True
          with \<open>i < length t \<and> t ! i \<noteq> c\<close> amp j show ?thesis
            by (simp add: scan_quoted.simps[of t c i] Let_def)
        next
          case False
          with True amp 1(1) have "?j + 1 \<le> scan_quoted t c (?j + 1)" by simp
          with True amp False j show ?thesis
            by (simp add: scan_quoted.simps[of t c i] Let_def)
        qed
      qed
    qed
  qed
  have "i0 \<le> i1" "i1 \<le> i2" "i2 \<le> i3" "i3 + 1 \<le> i4"
    using 3 by (simp_all add: ge)
  moreover have "i4 + 1 \<le> i5" using 3 ge_quoted by simp
  ultimately show ?case using 3(1,2) by simp
qed

declare parse_attributes_loop.simps [simp del]

definition parse_attributes :: "string \<Rightarrow> error + (string \<times> string) list" where
  "parse_attributes attr_string = parse_attributes_loop attr_string [] 0"

section \<open>The document parser\<close>

text \<open>
  The flush of the pending text (lines 128 to 132 and 193 to 196): the buffer becomes a text
  node when it holds a character that is not whitespace.
\<close>

definition flush_text :: "SSMLNode list \<Rightarrow> string \<Rightarrow> SSMLNode list" where
  "flush_text nodes text_buffer =
     (if text_buffer \<noteq> [] \<and> strip text_buffer \<noteq> []
      then nodes @ [SSMLText (unescapeXMLChars text_buffer)] else nodes)"

text \<open>
  The head of an opening tag (lines 151 to 175), read at the \<open><\<close> that starts \<open>s\<close>: the
  tag name, the attributes, whether the tag closes itself, and the offset of its \<open>>\<close>.
\<close>

definition open_tag :: "string \<Rightarrow> error + (string \<times> (string \<times> string) list \<times> bool \<times> nat)" where
  "open_tag s =
     (case find_sub s ''>'' of
        None \<Rightarrow> Inl UnclosedTag
      | Some tag_end \<Rightarrow>
          (let tag_content = strip (slice s 1 tag_end);
               is_self_closing = endswith tag_content ''/'';
               tag_content = (if is_self_closing then strip (butlast tag_content) else tag_content);
               parts = split1 (strip tag_content)
           in case parts of
                [] \<Rightarrow> Inl EmptyTag
              | p # ps \<Rightarrow>
                  (let tag_name = lower p;
                       attr_str = (case ps of [] \<Rightarrow> [] | q # _ \<Rightarrow> q)
                   in if attr_str \<noteq> [] then
                        (case parse_attributes attr_str of
                           Inl e \<Rightarrow> Inl (InvalidAttributesInTag tag_name e)
                         | Inr attributes \<Rightarrow> Inr (tag_name, attributes, is_self_closing, tag_end))
                      else Inr (tag_name, [], is_self_closing, tag_end))))"

text \<open>
  The loop of \<open>parse_node\<close>. The pair of the string and the index \<open>i\<close> is the suffix
  \<open>s[i:]\<close>, since the code never looks before \<open>i\<close>; the state of the loop is the node list
  and the text buffer; the result holds the nodes and the suffix left after the offset the
  code returns. \<open>expected_closing_tag\<close> is \<open>None\<close> or a string, and counts as given when it
  is a string that is not empty. The call of \<open>parse_node\<close> for the children is the loop
  started with no nodes and an empty buffer.
\<close>

function parse_loop ::
  "string \<Rightarrow> string option \<Rightarrow> SSMLNode list \<Rightarrow> string \<Rightarrow> error + (SSMLNode list \<times> string)" where
  "parse_loop [] expected_closing_tag nodes text_buffer =
     (let nodes = flush_text nodes text_buffer
      in case expected_closing_tag of
           None \<Rightarrow> Inr (nodes, [])
         | Some e \<Rightarrow> if e \<noteq> [] then Inl (MissingClosingTag e) else Inr (nodes, []))"
| "parse_loop (c # cs) expected_closing_tag nodes text_buffer =
     (if c = CHR ''<'' then
        (let nodes = flush_text nodes text_buffer
         in if startswith (c # cs) ''</'' then
              (case find_sub (c # cs) ''>'' of
                 None \<Rightarrow> Inl UnclosedTag
               | Some end_tag \<Rightarrow>
                   (let tag_content = strip (slice (c # cs) 2 end_tag);
                        closing_tag = lower (strip tag_content)
                    in case expected_closing_tag of
                         None \<Rightarrow> Inr (nodes, drop (end_tag + 1) (c # cs))
                       | Some e \<Rightarrow>
                           if e \<noteq> [] \<and> closing_tag \<noteq> e then Inl (MismatchedTags e closing_tag)
                           else Inr (nodes, drop (end_tag + 1) (c # cs))))
            else
              (case open_tag (c # cs) of
                 Inl err \<Rightarrow> Inl err
               | Inr (tag_name, attributes, is_self_closing, tag_end) \<Rightarrow>
                   if is_self_closing then
                     parse_loop (drop (tag_end + 1) (c # cs)) expected_closing_tag
                       (nodes @ [SSMLTag tag_name attributes []]) []
                   else
                     (case parse_loop (drop (tag_end + 1) (c # cs)) (Some tag_name) [] [] of
                        Inl err \<Rightarrow> Inl err
                      | Inr (children, rest) \<Rightarrow>
                          parse_loop rest expected_closing_tag
                            (nodes @ [SSMLTag tag_name attributes children]) [])))
      else parse_loop cs expected_closing_tag nodes (text_buffer @ [c]))"
  by pat_completeness auto

termination
proof -
  have shorter: "length rest \<le> length s"
    if "parse_loop_dom (s, e, ns, b)" and "parse_loop s e ns b = Inr (res, rest)"
    for s e ns b res rest
    using that
  proof (induction s e ns b arbitrary: res rest rule: parse_loop.pinduct)
    case (1 e ns b)
    from 1(2) show ?case
      unfolding parse_loop.psimps(1)[OF 1(1)]
      by (simp add: Let_def split: option.splits if_splits)
  next
    case (2 c cs e ns b)
    note eq = "2.prems"[unfolded parse_loop.psimps(2)[OF "2.hyps"]]
    show ?case
    proof (cases "c = CHR ''<''")
      case False
      with eq have "parse_loop cs e ns (b @ [c]) = Inr (res, rest)" by simp
      from "2.IH"(4)[OF False this] show ?thesis by simp
    next
      case lt: True
      show ?thesis
      proof (cases "startswith (c # cs) ''</''")
        case True
        with eq lt show ?thesis
          by (auto simp: Let_def split: option.splits if_splits)
      next
        case nc: False
        show ?thesis
        proof (cases "open_tag (c # cs)")
          case (Inl err)
          with eq lt nc show ?thesis by (simp add: Let_def)
        next
          case (Inr t)
          obtain tag_name attributes is_self_closing tag_end
            where t: "t = (tag_name, attributes, is_self_closing, tag_end)"
            by (cases t) auto
          with Inr have ot: "open_tag (c # cs) = Inr (tag_name, attributes, is_self_closing, tag_end)"
            by simp
          show ?thesis
          proof (cases is_self_closing)
            case True
            with eq lt nc ot
            have "parse_loop (drop (tag_end + 1) (c # cs)) e
                    (flush_text ns b @ [SSMLTag tag_name attributes []]) [] = Inr (res, rest)"
              by (simp add: Let_def)
            from "2.IH"(1)[OF lt refl nc ot refl refl refl True this]
            show ?thesis by simp
          next
            case False
            with eq lt nc ot
            obtain children r where
              inner: "parse_loop (drop (tag_end + 1) (c # cs)) (Some tag_name) [] [] = Inr (children, r)"
              and outer: "parse_loop r e (flush_text ns b @ [SSMLTag tag_name attributes children]) [] = Inr (res, rest)"
              by (auto simp: Let_def split: sum.splits)
            from "2.IH"(2)[OF lt refl nc ot refl refl refl False inner]
            have "length r \<le> length cs" by simp
            moreover from "2.IH"(3)[OF lt refl nc ot refl refl refl False inner refl outer]
            have "length rest \<le> length r" .
            ultimately show ?thesis by simp
          qed
        qed
      qed
    qed
  qed
  show ?thesis
  proof (relation "measure (\<lambda>(s, e, ns, b). length s)", goal_cases)
    case 1
    show ?case by simp
  next
    case 2
    then show ?case by simp
  next
    case 3
    then show ?case by simp
  next
    case prems: (4 c cs e ns b x t xa y xb ya xc yb ba xca yc)
    from prems(9,10)
    have "parse_loop (drop (yb + 1) (c # cs)) (Some xa) [] [] = Inr (xca, yc)" by simp
    from shorter[OF prems(11) this] show ?case by simp
  next
    case 5
    then show ?case by simp
  qed
qed

declare parse_loop.simps [simp del]

text \<open>\<open>parse_node(s, pos, expected_closing_tag)\<close>, with the offset it returns.\<close>

definition parse_node ::
  "string \<Rightarrow> nat \<Rightarrow> string option \<Rightarrow> error + (SSMLNode list \<times> nat)" where
  "parse_node s pos expected_closing_tag =
     (case parse_loop (drop pos s) expected_closing_tag [] [] of
        Inl err \<Rightarrow> Inl err
      | Inr (nodes, rest) \<Rightarrow> Inr (nodes, length s - length rest))"

text \<open>
  The body of the \<open>try\<close> block of \<open>parseSSML\<close> (lines 213 to 236). The check before it
  makes \<open>find('<speak')\<close> succeed, so the first \<open>None\<close> branch is never taken.
\<close>

definition parseSSML_try :: "string \<Rightarrow> string \<Rightarrow> error + SSMLNode" where
  "parseSSML_try ssml ssml_lower =
     (case find_sub ssml_lower ''<speak'' of
        None \<Rightarrow> Inl UnclosedSpeak
      | Some speak_start \<Rightarrow>
          (case find_from ssml ''>'' speak_start of
             None \<Rightarrow> Inl UnclosedSpeak
           | Some speak_end \<Rightarrow>
               (let content_start = speak_end + 1
                in case rfind_sub ssml_lower ''</speak>'' of
                     None \<Rightarrow> Inl MissingClosingSpeak
                   | Some content_end \<Rightarrow>
                       (let content = strip (slice ssml content_start content_end)
                        in case parse_node content 0 None of
                             Inl err \<Rightarrow> Inl err
                           | Inr (nodes, _) \<Rightarrow>
                               (case (if CHR '' '' \<in> set (slice ssml speak_start speak_end)
                                      then (let attr_str = strip (slice ssml (speak_start + 6) speak_end)
                                            in if attr_str \<noteq> [] then parse_attributes attr_str
                                               else Inr [])
                                      else Inr []) of
                                  Inl err \<Rightarrow> Inl err
                                | Inr speak_attrs \<Rightarrow> Inr (SSMLTag ''speak'' speak_attrs nodes))))))"

definition parseSSML :: "string \<Rightarrow> error + SSMLNode" where
  "parseSSML ssml0 =
     (let ssml = strip ssml0;
          ssml_lower = lower ssml
      in if \<not> (startswith (lstrip ssml_lower) ''<speak''
                 \<and> find_sub ssml_lower ''</speak>'' \<noteq> None)
         then Inl MissingRoot
         else (case parseSSML_try ssml ssml_lower of
                 Inl err \<Rightarrow> Inl (ErrorParsingSSML err)
               | Inr root \<Rightarrow> Inr root))"

section \<open>Properties\<close>

subsection \<open>Entities\<close>

text \<open>
  Claim C2. Parsing \<open><speak>a &lt; b &amp; c &gt; d</speak>\<close> gives the single text child
  \<open>a < b & c > d\<close>. Rendering that text node does not give the escaped form back:
  \<open>escapeXMLChars\<close> replaces \<open>&\<close> last, so the \<open>&\<close> of the \<open>&lt;\<close> and \<open>&gt;\<close> it has just
  written are escaped again.
\<close>

theorem C2_entity_text_rendered_twice_escaped:
  "parseSSML ''<speak>a &lt; b &amp; c &gt; d</speak>''
     = Inr (SSMLTag ''speak'' [] [SSMLText ''a < b & c > d''])
   \<and> ssmlNodeToText (SSMLText ''a < b & c > d'') = ''a &amp;lt; b &amp; c &amp;gt; d''
   \<and> ssmlNodeToText (SSMLText ''a < b & c > d'') \<noteq> ''a &lt; b &amp; c &gt; d''"
  by code_simp

subsection \<open>The body of the root\<close>

text \<open>
  Claim C4. In \<open><speak>a</speak>b</speak>\<close> the body handed to the recursive parser runs to
  the last \<open></speak>\<close>, but the parser returns at the first closing tag it meets when no
  closing tag is expected: the text \<open>b\<close> is not in the tree.
\<close>

theorem C4_text_after_first_closing_token_lost:
  "parseSSML ''<speak>a</speak>b</speak>'' = Inr (SSMLTag ''speak'' [] [SSMLText ''a''])
   \<and> parse_node ''a</speak>b'' 0 None = Inr ([SSMLText ''a''], 9)"
  by code_simp

subsection \<open>Errors\<close>

text \<open>
  Claim C5. An error of the attribute tokenizer on the attribute string of the root tag
  leaves \<open>parseSSML\<close> without the name of the tag around it, while the same error in an
  inner tag is wrapped with the name of that tag.
\<close>

theorem C5_root_attribute_error_not_wrapped_with_tag:
  "parseSSML ''<speak =>hi</speak>'' = Inl (ErrorParsingSSML (InvalidAttribute 0))
   \<and> parseSSML ''<speak><p =>hi</p></speak>''
       = Inl (ErrorParsingSSML (InvalidAttributesInTag ''p'' (InvalidAttribute 0)))"
  by code_simp

text \<open>
  Claim C9. \<open><speakx>hi</speak>\<close> is accepted: the root check looks for the prefix
  \<open><speak\<close> only, and the result is a root named \<open>speak\<close> with no attributes and the single
  text child \<open>hi\<close>.
\<close>

theorem C9_root_name_prefix_accepted:
  "parseSSML ''<speakx>hi</speak>'' = Inr (SSMLTag ''speak'' [] [SSMLText ''hi''])"
  by code_simp

text \<open>
  Claim C10. In \<open><speak><p time="a&b">x</p></speak>\<close> the quoted value holds an \<open>&\<close> with no
  later \<open>;\<close>; the scan for the \<open>;\<close> runs through the closing quote to the end of the
  attribute string, and the parse fails with the unclosed-quote error.
\<close>

theorem C10_ampersand_without_semicolon_unclosed_quote:
  "parseSSML ''<speak><p time=\"a&b\">x</p></speak>''
     = Inl (ErrorParsingSSML (InvalidAttributesInTag ''p'' (UnclosedQuote ''time'')))
   \<and> parse_attributes ''time=\"a&b\"'' = Inl (UnclosedQuote ''time'')
   \<and> scan_quoted ''time=\"a&b\"'' (CHR 0x22) 6 = 10"
  by code_simp

end
